theory Spec2Isabelle
  imports
    Main
    "HOL-Library.Char_ord"
    "HOL-Library.List_Lexorder"
    "HOL-Library.Sublist"
begin

section \<open>Go strings and errors\<close>

text \<open>
  A Go \<^verbatim>\<open>string\<close> is a sequence of bytes, and so is a HOL \<^typ>\<open>string\<close>
  (a list of 8-bit characters). Go compares strings byte by byte, a proper prefix being
  smaller: this is the lexicographic order on \<^typ>\<open>char list\<close> over the order of
  the byte values.
\<close>

text \<open>
  Go errors. \<^verbatim>\<open>errors.New(m)\<close> and \<^verbatim>\<open>fmt.Errorf\<close> without \<^verbatim>\<open>%w\<close> give an error that
  only carries its message; \<^verbatim>\<open>fmt.Errorf\<close> with \<^verbatim>\<open>%w\<close> carries the formatted message and
  the error it wraps. The two errors of \<^verbatim>\<open>encoding/json\<close> keep their own shape.
\<close>

datatype error =
    ErrorString string
  | WrapError string error
  | SyntaxError string
  | UnmarshalTypeError string string

fun Error :: "error \<Rightarrow> string" where
  "Error (ErrorString m) = m"
| "Error (WrapError m e) = m"
| "Error (SyntaxError m) = m"
| "Error (UnmarshalTypeError v t) =
     ''json: cannot unmarshal '' @ v @ '' into Go value of type '' @ t"

fun Unwrap :: "error \<Rightarrow> error option" where
  "Unwrap (WrapError m e) = Some e"
| "Unwrap e = None"

text \<open>A run-time panic ends the program; the one the program can raise is the use of a nil pointer.\<close>

datatype panic = NilPointerDereference

definition HasPrefix :: "string \<Rightarrow> string \<Rightarrow> bool" where
  "HasPrefix s p = (length p \<le> length s \<and> take (length p) s = p)"

definition HasSuffix :: "string \<Rightarrow> string \<Rightarrow> bool" where
  "HasSuffix s p = (length p \<le> length s \<and> drop (length s - length p) s = p)"

definition TrimPrefix :: "string \<Rightarrow> string \<Rightarrow> string" where
  "TrimPrefix s p = (if HasPrefix s p then drop (length p) s else s)"

definition TrimSuffix :: "string \<Rightarrow> string \<Rightarrow> string" where
  "TrimSuffix s p = (if HasSuffix s p then take (length s - length p) s else s)"

text \<open>\<^verbatim>\<open>strings.Join(elems, sep)\<close>.\<close>

fun Join :: "string list \<Rightarrow> string \<Rightarrow> string" where
  "Join [] sep = []"
| "Join [x] sep = x"
| "Join (x # y # ys) sep = x @ sep @ Join (y # ys) sep"

text \<open>
  \<^verbatim>\<open>strings.Split(s, sep)\<close> for a separator of one byte, the only use in the program
  (\<^verbatim>\<open>"\n"\<close>): the pieces between the separators, one more than there are separators.
  \<open>cur\<close> holds the bytes of the current piece, last byte first.
\<close>

fun SplitFrom :: "char \<Rightarrow> string \<Rightarrow> string \<Rightarrow> string list" where
  "SplitFrom sep cur [] = [rev cur]"
| "SplitFrom sep cur (c # cs) =
     (if c = sep then rev cur # SplitFrom sep [] cs else SplitFrom sep (c # cur) cs)"

definition Split :: "string \<Rightarrow> char \<Rightarrow> string list" where
  "Split s sep = SplitFrom sep [] s"

text \<open>
  Package \<^verbatim>\<open>strings\<close> treats a string of ASCII bytes byte by byte and hands every other
  string to its Unicode routines. The ASCII paths are written out below; the Unicode
  routines, the public suffix table, the JSON scanner and encoder, the URL check of
  \<^verbatim>\<open>http.NewRequestWithContext\<close> and \<^verbatim>\<open>filepath.Dir\<close> are libraries outside the repository
  and are the fields of \<open>lib\<close>.
\<close>

datatype json =
    JNull
  | JBool bool
  | JNumber string
  | JString string
  | JArray "json list"
  | JObject "(string \<times> json) list"

record lib =
  mapToLower :: "string \<Rightarrow> string"
    \<comment> \<open>\<^verbatim>\<open>strings.Map(unicode.ToLower, s)\<close>\<close>
  trimFuncIsSpace :: "string \<Rightarrow> string"
    \<comment> \<open>\<^verbatim>\<open>strings.TrimFunc(s, unicode.IsSpace)\<close>\<close>
  trimRightFuncIsSpace :: "string \<Rightarrow> string"
    \<comment> \<open>\<^verbatim>\<open>strings.TrimRightFunc(s, unicode.IsSpace)\<close>\<close>
  EffectiveTLDPlusOne :: "string \<Rightarrow> error + string"
    \<comment> \<open>\<^verbatim>\<open>publicsuffix.EffectiveTLDPlusOne\<close>\<close>
  scanJSON :: "string \<Rightarrow> error + json"
    \<comment> \<open>the JSON value a text denotes, or the syntax error of the scanner\<close>
  MarshalIndent :: "string list \<Rightarrow> string \<Rightarrow> string \<Rightarrow> error + string"
    \<comment> \<open>\<^verbatim>\<open>json.MarshalIndent(arr, prefix, indent)\<close>\<close>
  Dir :: "string \<Rightarrow> string"
    \<comment> \<open>\<^verbatim>\<open>filepath.Dir\<close>\<close>
  NewRequestWithContext :: "string \<Rightarrow> error option"
    \<comment> \<open>the error of \<^verbatim>\<open>http.NewRequestWithContext(ctx, "GET", url, nil)\<close>; the request is
        nil exactly when there is one\<close>

definition isASCII :: "char \<Rightarrow> bool" where
  "isASCII c = (c < CHR 0x80)"

definition asciiSpace :: "char \<Rightarrow> bool" where
  "asciiSpace c = (c \<in> {CHR 0x09, CHR 0x0A, CHR 0x0B, CHR 0x0C, CHR 0x0D, CHR '' ''})"

definition asciiLower :: "char \<Rightarrow> char" where
  "asciiLower c =
     (if CHR ''A'' \<le> c \<and> c \<le> CHR ''Z'' then char_of (of_char c + (32 :: nat)) else c)"

text \<open>\<^verbatim>\<open>strings.ToLower\<close>: the ASCII path maps \<^verbatim>\<open>A-Z\<close> to \<^verbatim>\<open>a-z\<close>.\<close>

definition ToLower :: "lib \<Rightarrow> string \<Rightarrow> string" where
  "ToLower L s = (if list_all isASCII s then map asciiLower s else mapToLower L s)"

text \<open>
  \<^verbatim>\<open>strings.TrimSpace\<close>: ASCII white space is skipped from the front; at a byte that is
  not ASCII the rest goes to \<^verbatim>\<open>TrimFunc\<close>. Then ASCII white space is skipped from the
  back; at a byte that is not ASCII what is left goes to \<^verbatim>\<open>TrimRightFunc\<close>.
\<close>

definition TrimSpace :: "lib \<Rightarrow> string \<Rightarrow> string" where
  "TrimSpace L s =
     (case dropWhile asciiSpace s of
        [] \<Rightarrow> []
      | c # cs \<Rightarrow>
          if \<not> isASCII c then trimFuncIsSpace L (c # cs)
          else (case dropWhile asciiSpace (rev (c # cs)) of
                  [] \<Rightarrow> []
                | d # ds \<Rightarrow>
                    if \<not> isASCII d then trimRightFuncIsSpace L (rev (d # ds))
                    else rev (d # ds)))"

section \<open>The normalizer\<close>

text \<open>\<^verbatim>\<open>normalizeAndFilter\<close> (generator.go, 150-160).\<close>

definition normalizeAndFilter :: "lib \<Rightarrow> string list \<Rightarrow> string list" where
  "normalizeAndFilter L ins =
     foldl (\<lambda>out s.
              let s = TrimSpace L (ToLower L s)
              in if s = [] \<or> HasPrefix s ''#'' then out else out @ [s]) [] ins"

section \<open>The reconciler\<close>

text \<open>
  \<^verbatim>\<open>cleanDomains\<close> (generator.go, 162-170): two \<^verbatim>\<open>TrimPrefix\<close> calls in a row on every
  entry.
\<close>

definition cleanDomain :: "string \<Rightarrow> string" where
  "cleanDomain s = TrimPrefix (TrimPrefix s ''*.'') ''.''"

definition cleanDomains :: "string list \<Rightarrow> string list" where
  "cleanDomains ins = map cleanDomain ins"

text \<open>
  \<^verbatim>\<open>effectiveTLDPlusOne\<close> (195-201). The public suffix table is not part of the
  repository: \<^verbatim>\<open>publicsuffix.EffectiveTLDPlusOne\<close> is the parameter \<open>psl\<close>.
\<close>

definition effectiveTLDPlusOne :: "(string \<Rightarrow> error + string) \<Rightarrow> string \<Rightarrow> error + string" where
  "effectiveTLDPlusOne psl domain =
     (let domain = TrimSuffix domain ''.'' in
      if domain = [] then Inl (ErrorString ''empty domain'') else psl domain)"

text \<open>
  \<^verbatim>\<open>removeSecureDomainsByETLD1\<close> (172-193). The Go map with empty-struct values is a
  set of keys; the first loop fills it, the second filters \<open>deny\<close> in order.
\<close>

definition secureKeys :: "(string \<Rightarrow> error + string) \<Rightarrow> string list \<Rightarrow> string set" where
  "secureKeys psl secure =
     foldl (\<lambda>sec s. case effectiveTLDPlusOne psl s of
                       Inr et \<Rightarrow> insert et sec
                     | Inl err \<Rightarrow> insert s sec) {} secure"

definition removeSecureDomainsByETLD1 ::
  "(string \<Rightarrow> error + string) \<Rightarrow> string list \<Rightarrow> string list \<Rightarrow> string list" where
  "removeSecureDomainsByETLD1 psl deny secure =
     (let sec = secureKeys psl secure in
      foldl (\<lambda>out d.
               let et = (case effectiveTLDPlusOne psl d of Inr et \<Rightarrow> et | Inl err \<Rightarrow> d)
               in if et \<in> sec then out else out @ [d]) [] deny)"

text \<open>
  \<^verbatim>\<open>uniqueSorted\<close> (203-216): the non-empty entries go into a set; its elements, which
  Go iterates in no fixed order, are sorted with \<^verbatim>\<open>sort.Strings\<close>. Sorting pairwise
  different strings has one result whatever the order before: the sorted list of the set.
\<close>

definition uniqueSorted :: "string list \<Rightarrow> string list" where
  "uniqueSorted ins =
     sorted_list_of_set (foldl (\<lambda>st s. if s \<noteq> [] then insert s st else st) {} ins)"

text \<open>\<^verbatim>\<open>difference\<close> (218-230).\<close>

definition difference :: "string list \<Rightarrow> string list \<Rightarrow> string list" where
  "difference a b =
     (let sb = foldl (\<lambda>sb s. insert s sb) {} b in
      foldl (\<lambda>out s. if s \<notin> sb then out @ [s] else out) [] a)"

text \<open>
  The pure middle of \<^verbatim>\<open>Run\<close> (51-61): from the fetched deny and allow candidates and
  the local secure list to the two lists that are written.
\<close>

definition finalLists ::
  "lib \<Rightarrow> string list \<Rightarrow> string list \<Rightarrow> string list \<Rightarrow> string list \<times> string list" where
  "finalLists L deny allow secureLocal =
     (let deny = normalizeAndFilter L deny;
          allow = normalizeAndFilter L allow;
          secure = normalizeAndFilter L secureLocal;
          deny = cleanDomains deny;
          allow = cleanDomains allow;
          secure = cleanDomains secure;
          deny = removeSecureDomainsByETLD1 (EffectiveTLDPlusOne L) deny secure;
          deny = difference (uniqueSorted deny) (uniqueSorted allow);
          allow = uniqueSorted (allow @ secure)
      in (deny, allow))"

section \<open>Fetching and decoding\<close>

text \<open>
  The world outside (network, clock, file system) is a state \<open>'w\<close> that every effect takes
  and returns. An HTTP response is its status code and what reading its body delivers:
  the bytes, and the error that ends them if it is not the end of the body.
\<close>

record response =
  StatusCode :: int
  Body :: string
  BodyErr :: "error option"

record 'w os =
  Do :: "string \<Rightarrow> 'w \<Rightarrow> (response option \<times> error option) \<times> 'w"
    \<comment> \<open>\<^verbatim>\<open>client.Do(req)\<close> for the request of a URL\<close>
  After :: "nat \<Rightarrow> 'w \<Rightarrow> error option \<times> 'w"
    \<comment> \<open>the \<^verbatim>\<open>select\<close> of \<^verbatim>\<open>fetch\<close>: the wait of so many milliseconds is over (\<open>None\<close>), or
        the context is done first (its \<^verbatim>\<open>ctx.Err()\<close>)\<close>
  MkdirAll :: "string \<Rightarrow> nat \<Rightarrow> 'w \<Rightarrow> error option \<times> 'w"
  WriteFile :: "string \<Rightarrow> string \<Rightarrow> nat \<Rightarrow> 'w \<Rightarrow> error option \<times> 'w"

text \<open>\<^verbatim>\<open>io.ReadAll(io.LimitReader(resp.Body, n))\<close>: at most \<open>n\<close> bytes, and the error only if it comes before them.\<close>

definition ReadAllLimit :: "response \<Rightarrow> int \<Rightarrow> string \<times> error option" where
  "ReadAllLimit r n =
     (if n \<le> int (length (Body r)) then (take (nat n) (Body r), None)
      else (Body r, BodyErr r))"

text \<open>The verb \<^verbatim>\<open>%d\<close> of an \<^verbatim>\<open>int\<close>.\<close>

fun decimal :: "nat \<Rightarrow> string" where
  "decimal n =
     (if n < 10 then [char_of (48 + n)] else decimal (n div 10) @ [char_of (48 + n mod 10)])"

declare decimal.simps [simp del]

definition Itoa :: "int \<Rightarrow> string" where
  "Itoa i = (if i < 0 then ''-'' @ decimal (nat (- i)) else decimal (nat i))"

text \<open>
  \<^verbatim>\<open>fetch\<close> (125-148). The loop runs for \<open>i = 0, 1, 2\<close>. The error of the request
  constructor is dropped, so that with a URL it refuses the request is nil and setting its
  header panics. A response with a status from 200 to 299 and no error ends the loop
  with at most \<^verbatim>\<open>10<<20\<close> bytes of its body. Otherwise the last error is the status or the
  transport error, and the loop waits \<open>(i+1) * 500\<close> milliseconds unless the context is
  done first, which ends it with the error of the context. After the third attempt the
  last error is returned. The result is the pair \<^verbatim>\<open>([]byte, error)\<close> of the Go function.
\<close>

definition succeeded :: "response option \<Rightarrow> error option \<Rightarrow> bool" where
  "succeeded resp err =
     (err = None \<and> resp \<noteq> None \<and> 200 \<le> StatusCode (the resp) \<and> StatusCode (the resp) < 300)"

fun fetchAttempts ::
  "'w os \<Rightarrow> lib \<Rightarrow> string \<Rightarrow> nat list \<Rightarrow> error option \<Rightarrow> 'w \<Rightarrow>
   (panic + string \<times> error option) \<times> 'w" where
  "fetchAttempts E L url [] lastErr w = (Inr ([], lastErr), w)"
| "fetchAttempts E L url (i # is) lastErr w =
     (if NewRequestWithContext L url \<noteq> None then (Inl NilPointerDereference, w)
      else (case Do E url w of
        ((resp, err), w1) \<Rightarrow>
          if succeeded resp err then (Inr (ReadAllLimit (the resp) 10485760), w1)
          else (let lastErr = (case resp of
                                 Some r \<Rightarrow> Some (ErrorString (''http '' @ Itoa (StatusCode r)))
                               | None \<Rightarrow> err)
                in case After E ((i + 1) * 500) w1 of
                     (Some cerr, w2) \<Rightarrow> (Inr ([], Some cerr), w2)
                   | (None, w2) \<Rightarrow> fetchAttempts E L url is lastErr w2)))"

definition fetch :: "'w os \<Rightarrow> lib \<Rightarrow> string \<Rightarrow> 'w \<Rightarrow> (panic + string \<times> error option) \<times> 'w" where
  "fetch E L url w = fetchAttempts E L url [0, 1, 2] None w"

text \<open>\<^verbatim>\<open>fetchTextLines\<close> (105-111): the body is split at every \<^verbatim>\<open>\n\<close>.\<close>

definition textLines :: "string \<Rightarrow> string list" where
  "textLines b = Split b (CHR 0x0A)"

definition fetchTextLines ::
  "'w os \<Rightarrow> lib \<Rightarrow> string \<Rightarrow> 'w \<Rightarrow> (panic + error + string list) \<times> 'w" where
  "fetchTextLines E L url w =
     (case fetch E L url w of
        (Inl p, w') \<Rightarrow> (Inl p, w')
      | (Inr (b, Some err), w') \<Rightarrow> (Inr (Inl err), w')
      | (Inr (b, None), w') \<Rightarrow> (Inr (Inr (textLines b)), w'))"

text \<open>
  \<^verbatim>\<open>json.Unmarshal(b, &arr)\<close> with \<^verbatim>\<open>arr\<close> a \<^verbatim>\<open>[]string\<close>, as package
  \<^verbatim>\<open>encoding/json\<close> documents it: a text that is not JSON is a syntax error; \<^verbatim>\<open>null\<close>
  sets the slice to \<^verbatim>\<open>nil\<close> and is no error; an array is stored element by element,
  where a string is stored, \<^verbatim>\<open>null\<close> leaves the element at the zero value \<^verbatim>\<open>""\<close> and is
  no error, and any other element is skipped with an \<^verbatim>\<open>UnmarshalTypeError\<close>, the
  earliest of which is returned at the end; any other value is an
  \<^verbatim>\<open>UnmarshalTypeError\<close>.
\<close>

fun jsonKind :: "json \<Rightarrow> string" where
  "jsonKind JNull = ''null''"
| "jsonKind (JBool b) = ''bool''"
| "jsonKind (JNumber n) = ''number''"
| "jsonKind (JString s) = ''string''"
| "jsonKind (JArray vs) = ''array''"
| "jsonKind (JObject fs) = ''object''"

fun storeString :: "json \<Rightarrow> error + string" where
  "storeString (JString s) = Inr s"
| "storeString JNull = Inr []"
| "storeString v = Inl (UnmarshalTypeError (jsonKind v) ''string'')"

fun storeElements :: "json list \<Rightarrow> error option \<times> string list" where
  "storeElements [] = (None, [])"
| "storeElements (v # vs) =
     (let (saved, arr) = storeElements vs in
      case storeString v of
        Inr s \<Rightarrow> (saved, s # arr)
      | Inl err \<Rightarrow> (Some err, [] # arr))"

fun unmarshalStrings :: "json \<Rightarrow> error + string list" where
  "unmarshalStrings JNull = Inr []"
| "unmarshalStrings (JArray vs) =
     (case storeElements vs of
        (None, arr) \<Rightarrow> Inr arr
      | (Some err, arr) \<Rightarrow> Inl err)"
| "unmarshalStrings v = Inl (UnmarshalTypeError (jsonKind v) ''[]string'')"

definition Unmarshal :: "error + json \<Rightarrow> error + string list" where
  "Unmarshal doc = (case doc of Inl err \<Rightarrow> Inl err | Inr v \<Rightarrow> unmarshalStrings v)"

text \<open>
  \<^verbatim>\<open>fetchJSONStrings\<close> after a successful fetch (118-122), on the scanned body, then all
  of it (113-123).
\<close>

definition decodeJSONStrings :: "error + json \<Rightarrow> error + string list" where
  "decodeJSONStrings doc =
     (case Unmarshal doc of
        Inl err \<Rightarrow> Inl (WrapError (''decode json: '' @ Error err) err)
      | Inr arr \<Rightarrow> Inr arr)"

definition fetchJSONStrings ::
  "'w os \<Rightarrow> lib \<Rightarrow> string \<Rightarrow> 'w \<Rightarrow> (panic + error + string list) \<times> 'w" where
  "fetchJSONStrings E L url w =
     (case fetch E L url w of
        (Inl p, w') \<Rightarrow> (Inl p, w')
      | (Inr (b, Some err), w') \<Rightarrow> (Inr (Inl err), w')
      | (Inr (b, None), w') \<Rightarrow> (Inr (decodeJSONStrings (scanJSON L b)), w'))"

text \<open>
  \<^verbatim>\<open>obtainAllDomains\<close> (72-103): the two loops, over the state of \<open>out\<close> and \<open>errs\<close> and
  the world; a panic ends them.
\<close>

definition skipURL :: "lib \<Rightarrow> string \<Rightarrow> bool" where
  "skipURL L u = (HasPrefix u ''#'' \<or> TrimSpace L u = [])"

definition collect ::
  "(string \<Rightarrow> 'w \<Rightarrow> (panic + error + string list) \<times> 'w) \<Rightarrow> lib \<Rightarrow>
   (panic + string list \<times> string list) \<times> 'w \<Rightarrow> string \<Rightarrow>
   (panic + string list \<times> string list) \<times> 'w" where
  "collect get L st u =
     (case st of
        (Inl p, w) \<Rightarrow> (Inl p, w)
      | (Inr (out, errs), w) \<Rightarrow>
          if skipURL L u then (Inr (out, errs), w)
          else (case get u w of
                  (Inl p, w') \<Rightarrow> (Inl p, w')
                | (Inr (Inl err), w') \<Rightarrow> (Inr (out, errs @ [u @ '': '' @ Error err]), w')
                | (Inr (Inr lines), w') \<Rightarrow> (Inr (out @ lines, errs), w')))"

definition obtainAllDomains ::
  "'w os \<Rightarrow> lib \<Rightarrow> string list \<Rightarrow> string list \<Rightarrow> 'w \<Rightarrow>
   (panic + string list \<times> error option) \<times> 'w" where
  "obtainAllDomains E L textURLs jsonURLs w =
     (case foldl (collect (fetchJSONStrings E L) L)
             (foldl (collect (fetchTextLines E L) L) (Inr ([], []), w) textURLs) jsonURLs of
        (Inl p, w') \<Rightarrow> (Inl p, w')
      | (Inr (out, errs), w') \<Rightarrow>
          if length errs > 0 then (Inr (out, Some (ErrorString (Join errs ''; ''))), w')
          else (Inr (out, None), w'))"

section \<open>The writer\<close>

record Config =
  TextDeny :: "string list"
  JSONDeny :: "string list"
  TextAllow :: "string list"
  JSONAllow :: "string list"
  SecureLocal :: "string list"
  TextDenyOut :: string
  JSONDenyOut :: string
  TextAllowOut :: string
  JSONAllowOut :: string

text \<open>\<^verbatim>\<open>ensureDir\<close> (266-271); \<^verbatim>\<open>0o755 = 493\<close>, \<^verbatim>\<open>0o644 = 420\<close>.\<close>

definition ensureDir :: "'w os \<Rightarrow> string \<Rightarrow> 'w \<Rightarrow> error option \<times> 'w" where
  "ensureDir E dir w = (if dir = ''.'' \<or> dir = [] then (None, w) else MkdirAll E dir 493 w)"

text \<open>\<^verbatim>\<open>writeText\<close> (248-253).\<close>

definition writeText :: "'w os \<Rightarrow> lib \<Rightarrow> string \<Rightarrow> string list \<Rightarrow> 'w \<Rightarrow> error option \<times> 'w" where
  "writeText E L path lines w =
     (case ensureDir E (Dir L path) w of
        (Some err, w') \<Rightarrow> (Some err, w')
      | (None, w') \<Rightarrow> WriteFile E path (Join lines [CHR 0x0A]) 420 w')"

text \<open>\<^verbatim>\<open>writeJSON\<close> (255-264).\<close>

definition writeJSON :: "'w os \<Rightarrow> lib \<Rightarrow> string \<Rightarrow> string list \<Rightarrow> 'w \<Rightarrow> error option \<times> 'w" where
  "writeJSON E L path arr w =
     (case ensureDir E (Dir L path) w of
        (Some err, w') \<Rightarrow> (Some err, w')
      | (None, w') \<Rightarrow>
          (case MarshalIndent L arr [] ''  '' of
             Inl err \<Rightarrow> (Some err, w')
           | Inr b \<Rightarrow> WriteFile E path b 420 w'))"

text \<open>\<^verbatim>\<open>writeOutputs\<close> (232-246): four writes, the first error returned at once.\<close>

definition writeOutputs ::
  "'w os \<Rightarrow> lib \<Rightarrow> Config \<Rightarrow> string list \<Rightarrow> string list \<Rightarrow> 'w \<Rightarrow> error option \<times> 'w" where
  "writeOutputs E L cfg deny allow w =
     (case writeText E L (TextDenyOut cfg) deny w of
        (Some err, w1) \<Rightarrow> (Some err, w1)
      | (None, w1) \<Rightarrow>
     (case writeJSON E L (JSONDenyOut cfg) deny w1 of
        (Some err, w2) \<Rightarrow> (Some err, w2)
      | (None, w2) \<Rightarrow>
     (case writeText E L (TextAllowOut cfg) allow w2 of
        (Some err, w3) \<Rightarrow> (Some err, w3)
      | (None, w3) \<Rightarrow>
     (case writeJSON E L (JSONAllowOut cfg) allow w3 of
        (Some err, w4) \<Rightarrow> (Some err, w4)
      | (None, w4) \<Rightarrow> (None, w4)))))"

section \<open>The pipeline\<close>

text \<open>The combined fetch diagnostic of \<^verbatim>\<open>Run\<close> (39-49).\<close>

definition fetchDiagnostic :: "error option \<Rightarrow> error option \<Rightarrow> error option" where
  "fetchDiagnostic derr aerr =
     (if derr \<noteq> None \<or> aerr \<noteq> None
      then Some (ErrorString
                  (Join ((case derr of Some e \<Rightarrow> [Error e] | None \<Rightarrow> []) @
                         (case aerr of Some e \<Rightarrow> [Error e] | None \<Rightarrow> [])) ''; ''))
      else None)"

text \<open>
  \<^verbatim>\<open>Run\<close> (35-70). It returns the triple of the two counts and the error, or it panics
  in a fetch; either way the world is as the effects left it.
\<close>

definition Run ::
  "'w os \<Rightarrow> lib \<Rightarrow> Config \<Rightarrow> 'w \<Rightarrow> (panic + int \<times> int \<times> error option) \<times> 'w" where
  "Run E L cfg w =
     (case obtainAllDomains E L (TextDeny cfg) (JSONDeny cfg) w of
        (Inl p, w1) \<Rightarrow> (Inl p, w1)
      | (Inr (deny, derr), w1) \<Rightarrow>
     (case obtainAllDomains E L (TextAllow cfg) (JSONAllow cfg) w1 of
        (Inl p, w2) \<Rightarrow> (Inl p, w2)
      | (Inr (allow, aerr), w2) \<Rightarrow>
     (let err = fetchDiagnostic derr aerr in
      case finalLists L deny allow (SecureLocal cfg) of
        (deny, allow) \<Rightarrow>
     (case writeOutputs E L cfg deny allow w2 of
        (Some werr, w3) \<Rightarrow>
          (case err of
             Some e \<Rightarrow> (Inr (0, 0, Some (WrapError (Error e @ ''; '' @ Error werr) werr)), w3)
           | None \<Rightarrow> (Inr (0, 0, Some werr), w3))
      | (None, w3) \<Rightarrow> (Inr (int (length deny), int (length allow), err), w3)))))"

section \<open>Reading the local source files\<close>

text \<open>
  \<^verbatim>\<open>splitLines\<close> (main.go, 70-94) splits the local declaration files. Each line ends at a
  \<^verbatim>\<open>\n\<close> and loses one trailing \<^verbatim>\<open>\r\<close>; what follows the last \<^verbatim>\<open>\n\<close> is a line only if
  it is not empty. \<open>cur\<close> holds the bytes since \<^verbatim>\<open>start\<close>, last byte first.
\<close>

definition dropCR :: "string \<Rightarrow> string" where
  "dropCR line = (if length line > 0 \<and> last line = CHR 0x0D then butlast line else line)"

fun splitLinesFrom :: "string \<Rightarrow> string \<Rightarrow> string list" where
  "splitLinesFrom cur [] = (let line = dropCR (rev cur) in if line \<noteq> [] then [line] else [])"
| "splitLinesFrom cur (c # cs) =
     (if c = CHR 0x0A then dropCR (rev cur) # splitLinesFrom [] cs
      else splitLinesFrom (c # cur) cs)"

definition splitLines :: "string \<Rightarrow> string list" where
  "splitLines s = splitLinesFrom [] s"

section \<open>A stub environment for the examples\<close>

text \<open>
  A suffix table in which every top-level label is a public suffix: the registrable domain
  is the last two labels, and a name with one label or an empty label has none.
\<close>

definition stubPSL :: "string \<Rightarrow> error + string" where
  "stubPSL d =
     (let ls = Split d (CHR ''.'') in
      if length ls < 2 \<or> [] \<in> set ls
      then Inl (ErrorString ''publicsuffix: cannot derive eTLD+1'')
      else Inr (Join (drop (length ls - 2) ls) ''.''))"

text \<open>
  The library stub: strings that are not ASCII are left as they are, three JSON texts are
  known to the scanner, the encoder writes one quoted string per line without escapes, the
  directory of a path is what precedes its last slash, and a URL makes a request when it
  has no space, control byte or byte that is not ASCII.
\<close>

definition stubQuote :: "string \<Rightarrow> string" where
  "stubQuote s = [CHR 0x22] @ s @ [CHR 0x22]"

definition stubScan :: "string \<Rightarrow> error + json" where
  "stubScan b =
     (if b = ''null'' then Inr JNull
      else if b = ''['' @ stubQuote ''Trusted.org'' @ '']''
        then Inr (JArray [JString ''Trusted.org''])
      else if b = ''{}'' then Inr (JObject [])
      else Inl (SyntaxError ''invalid character looking for beginning of value''))"

definition stubMarshal :: "string list \<Rightarrow> string \<Rightarrow> string \<Rightarrow> error + string" where
  "stubMarshal arr pre ind =
     (if arr = [] then Inr ''[]''
      else Inr (''['' @ [CHR 0x0A] @
                Join (map (\<lambda>s. pre @ ind @ stubQuote s) arr) ('','' @ [CHR 0x0A]) @
                [CHR 0x0A] @ pre @ '']''))"

definition stubDir :: "string \<Rightarrow> string" where
  "stubDir p =
     (let ds = rev (dropWhile (\<lambda>c. c \<noteq> CHR ''/'') (rev p)) in
      if ds = [] then ''.'' else butlast ds)"

definition stubLib :: lib where
  "stubLib = \<lparr> mapToLower = (\<lambda>s. s), trimFuncIsSpace = (\<lambda>s. s),
               trimRightFuncIsSpace = (\<lambda>s. s), EffectiveTLDPlusOne = stubPSL,
               scanJSON = stubScan,
               MarshalIndent = stubMarshal,
               Dir = stubDir,
               NewRequestWithContext = (\<lambda>url.
                 if list_all (\<lambda>c. CHR '' '' < c \<and> c < CHR 0x7F) url then None
                 else Some (ErrorString ''net/url: invalid character in URL'')) \<rparr>"

text \<open>
  The world stub is the list of the files written, the latest first. Three URLs answer
  with status 200, any other with status 500; no wait is cut short; directories can always
  be made; a path below \<^verbatim>\<open>ro/\<close> cannot be written.
\<close>

definition stubBody :: "string \<Rightarrow> string option" where
  "stubBody url =
     (if url = ''https://a/deny.txt''
      then Some (''Example.COM'' @ [CHR 0x0D, CHR 0x0A] @ ''*.spam.io'' @ [CHR 0x0A] @
                 ''#comment'' @ [CHR 0x0A, CHR 0x0A] @ ''trusted.org'' @ [CHR 0x0A] @
                 ''mail.good.net'')
      else if url = ''https://a/allow.json'' then Some (''['' @ stubQuote ''Trusted.org'' @ '']'')
      else if url = ''https://a/null.json'' then Some ''null''
      else None)"

definition stubDo ::
  "string \<Rightarrow> (string \<times> string) list \<Rightarrow>
   (response option \<times> error option) \<times> (string \<times> string) list" where
  "stubDo url w =
     (case stubBody url of
        Some b \<Rightarrow> ((Some \<lparr> StatusCode = 200, Body = b, BodyErr = None \<rparr>, None), w)
      | None \<Rightarrow> ((Some \<lparr> StatusCode = 500, Body = [], BodyErr = None \<rparr>, None), w))"

definition stubOS :: "(string \<times> string) list os" where
  "stubOS = \<lparr> Do = stubDo,
              After = (\<lambda>ms w. (None, w)),
              MkdirAll = (\<lambda>dir perm w. (None, w)),
              WriteFile = (\<lambda>path b perm w.
                 if HasPrefix path ''ro/'' then (Some (ErrorString ''read-only file system''), w)
                 else (None, (path, b) # w)) \<rparr>"

definition stubConfig :: Config where
  "stubConfig = \<lparr> TextDeny = [''# deny sources'', ''https://a/deny.txt''], JSONDeny = [],
                  TextAllow = [], JSONAllow = [''https://a/allow.json''],
                  SecureLocal = [''good.net''],
                  TextDenyOut = ''lists/deny.txt'', JSONDenyOut = ''lists/deny.json'',
                  TextAllowOut = ''lists/allow.txt'', JSONAllowOut = ''lists/allow.json'' \<rparr>"

text \<open>The same configuration with a failing source and a deny JSON path that cannot be written.\<close>

definition stubConfigRO :: Config where
  "stubConfigRO =
     stubConfig \<lparr> JSONDeny := [''https://b/x.json''], JSONDenyOut := ''ro/deny.json'' \<rparr>"

section \<open>Notions of the specification\<close>

text \<open>
  The comparison key of an entry, in the words of the specification: its eTLD+1 when
  that can be computed, the entry itself when it cannot.
\<close>

definition keyOf :: "(string \<Rightarrow> error + string) \<Rightarrow> string \<Rightarrow> string" where
  "keyOf psl s = (case effectiveTLDPlusOne psl s of Inr et \<Rightarrow> et | Inl err \<Rightarrow> s)"

text \<open>
  A normalized list: a raw list after \<^verbatim>\<open>normalizeAndFilter\<close> and \<^verbatim>\<open>cleanDomains\<close>, as
  \<^verbatim>\<open>Run\<close> makes it of the deny candidates, the allow candidates and the secure list
  (51-57).
\<close>

definition normalized :: "lib \<Rightarrow> string list \<Rightarrow> string list" where
  "normalized L ins = cleanDomains (normalizeAndFilter L ins)"

text \<open>
  What \<^verbatim>\<open>fetchJSONStrings\<close> takes without an error: \<^verbatim>\<open>null\<close>, and an array whose
  elements are strings or \<^verbatim>\<open>null\<close>; and the strings it then returns.
\<close>

fun stringOrNull :: "json \<Rightarrow> bool" where
  "stringOrNull (JString s) = True"
| "stringOrNull JNull = True"
| "stringOrNull v = False"

definition accepted :: "error + json \<Rightarrow> bool" where
  "accepted doc =
     (case doc of
        Inr JNull \<Rightarrow> True
      | Inr (JArray vs) \<Rightarrow> list_all stringOrNull vs
      | _ \<Rightarrow> False)"

fun stringOf :: "json \<Rightarrow> string" where
  "stringOf (JString s) = s"
| "stringOf v = []"

fun elementsOf :: "error + json \<Rightarrow> string list" where
  "elementsOf (Inr (JArray vs)) = map stringOf vs"
| "elementsOf doc = []"

text \<open>
  The prefix strip in the words of the specification: one leading \<^verbatim>\<open>*.\<close> is removed if
  there is one, else one leading \<^verbatim>\<open>.\<close> if there is one.
\<close>

definition stripWildcardPrefix :: "string \<Rightarrow> string" where
  "stripWildcardPrefix s =
     (if HasPrefix s ''*.'' then drop 2 s else if HasPrefix s ''.'' then drop 1 s else s)"

section \<open>Properties\<close>

subsection \<open>The loops as list functions\<close>

lemma foldl_insert_keys:
  "foldl (\<lambda>st s. if s \<noteq> [] then insert s st else st) A ins = A \<union> {s \<in> set ins. s \<noteq> []}"
  by (induction ins arbitrary: A) auto

lemma foldl_snoc_if:
  "foldl (\<lambda>out s. if P s then out @ [s] else out) acc xs = acc @ filter P xs"
  by (induction xs arbitrary: acc) auto

lemma foldl_insert_all: "foldl (\<lambda>sb s. insert s sb) A b = A \<union> set b"
  by (induction b arbitrary: A) auto

lemma secureKeys_from:
  "foldl (\<lambda>sec s. case effectiveTLDPlusOne psl s of
                     Inr et \<Rightarrow> insert et sec
                   | Inl err \<Rightarrow> insert s sec) A secure = A \<union> keyOf psl ` set secure"
  by (induction secure arbitrary: A) (auto simp: keyOf_def split: sum.splits)

lemma secureKeys_image: "secureKeys psl secure = keyOf psl ` set secure"
  by (simp add: secureKeys_def secureKeys_from)

lemma removeSecure_filter:
  "removeSecureDomainsByETLD1 psl deny secure =
     filter (\<lambda>d. keyOf psl d \<notin> keyOf psl ` set secure) deny"
proof -
  have "removeSecureDomainsByETLD1 psl deny secure =
          foldl (\<lambda>out d. if keyOf psl d \<notin> keyOf psl ` set secure then out @ [d] else out) [] deny"
    unfolding removeSecureDomainsByETLD1_def Let_def secureKeys_image keyOf_def
    by (rule arg_cong [where f = "\<lambda>f. foldl f [] deny"]) (auto simp: fun_eq_iff)
  then show ?thesis
    by (simp add: foldl_snoc_if)
qed

lemma difference_filter: "difference a b = filter (\<lambda>s. s \<notin> set b) a"
  by (simp add: difference_def foldl_insert_all foldl_snoc_if)

lemma set_uniqueSorted: "set (uniqueSorted ins) = set ins - {[]}"
  by (auto simp: uniqueSorted_def foldl_insert_keys)

lemma strict_uniqueSorted: "sorted_wrt (<) (uniqueSorted ins)"
  by (simp add: uniqueSorted_def foldl_insert_keys)

lemma uniqueSorted_cong: "set xs = set ys \<Longrightarrow> uniqueSorted xs = uniqueSorted ys"
  by (simp add: uniqueSorted_def foldl_insert_keys)

subsection \<open>Removing the secure domains\<close>

text \<open>
  C1. \<^verbatim>\<open>removeSecureDomainsByETLD1\<close> keeps, in their order, exactly the deny entries whose
  key differs from the key of every secure entry. The key of an entry is the entry itself
  when it is empty after trimming one trailing dot or when the public suffix library fails
  on the trimmed entry, and the library's eTLD+1 of the trimmed entry otherwise. Where
  the library maps \<^verbatim>\<open>mail.good.net\<close> and \<^verbatim>\<open>good.net\<close> to \<^verbatim>\<open>good.net\<close>, a secure
  \<^verbatim>\<open>good.net\<close> removes \<^verbatim>\<open>mail.good.net\<close> from deny.
\<close>

theorem removeSecureDomainsByETLD1_by_key:
  "removeSecureDomainsByETLD1 psl deny secure =
     filter (\<lambda>d. \<forall>s \<in> set secure. keyOf psl d \<noteq> keyOf psl s) deny
   \<and> (\<forall>s. keyOf psl s =
         (if TrimSuffix s ''.'' = [] then s
          else case psl (TrimSuffix s ''.'') of Inr et \<Rightarrow> et | Inl err \<Rightarrow> s))
   \<and> (psl ''mail.good.net'' = Inr ''good.net'' \<and> psl ''good.net'' = Inr ''good.net'' \<and>
        ''good.net'' \<in> set secure \<longrightarrow>
        ''mail.good.net'' \<notin> set (removeSecureDomainsByETLD1 psl deny secure))"
proof (intro conjI allI impI)
  have "(\<lambda>d. keyOf psl d \<notin> keyOf psl ` set secure) =
        (\<lambda>d. \<forall>s \<in> set secure. keyOf psl d \<noteq> keyOf psl s)"
    by auto
  then show "removeSecureDomainsByETLD1 psl deny secure =
     filter (\<lambda>d. \<forall>s \<in> set secure. keyOf psl d \<noteq> keyOf psl s) deny"
    by (simp add: removeSecure_filter)
next
  fix s
  show "keyOf psl s =
         (if TrimSuffix s ''.'' = [] then s
          else case psl (TrimSuffix s ''.'') of Inr et \<Rightarrow> et | Inl err \<Rightarrow> s)"
    by (simp add: keyOf_def effectiveTLDPlusOne_def Let_def)
next
  assume a: "psl ''mail.good.net'' = Inr ''good.net'' \<and> psl ''good.net'' = Inr ''good.net'' \<and>
        ''good.net'' \<in> set secure"
  have t: "TrimSuffix ''mail.good.net'' ''.'' = ''mail.good.net''"
    "TrimSuffix ''good.net'' ''.'' = ''good.net''"
    by (simp_all add: TrimSuffix_def HasSuffix_def)
  have "keyOf psl ''mail.good.net'' = keyOf psl ''good.net''"
    using a by (simp add: keyOf_def effectiveTLDPlusOne_def Let_def t)
  with a show "''mail.good.net'' \<notin> set (removeSecureDomainsByETLD1 psl deny secure)"
    by (auto simp: removeSecure_filter)
qed

theorem removeSecureDomainsByETLD1_by_key_witness:
  "removeSecureDomainsByETLD1 stubPSL
     [''mail.good.net'', ''evil.com'', ''localhost'', ''.''] [''good.net'', ''localhost'']
     = [''evil.com'', ''.'']
   \<and> stubPSL ''mail.good.net'' = Inr ''good.net''
   \<and> stubPSL ''good.net'' = Inr ''good.net''
   \<and> keyOf stubPSL ''localhost'' = ''localhost''
   \<and> keyOf stubPSL ''.'' = ''.''
   \<and> ''mail.good.net'' \<notin> set (removeSecureDomainsByETLD1 stubPSL
        [''mail.good.net'', ''evil.com'', ''localhost'', ''.''] [''good.net'', ''localhost''])"
proof -
  have ev:
    "filter (\<lambda>d. \<forall>s \<in> set [''good.net'', ''localhost'']. keyOf stubPSL d \<noteq> keyOf stubPSL s)
       [''mail.good.net'', ''evil.com'', ''localhost'', ''.''] = [''evil.com'', ''.'']"
    "stubPSL ''mail.good.net'' = Inr ''good.net''"
    "stubPSL ''good.net'' = Inr ''good.net''"
    "keyOf stubPSL ''localhost'' = ''localhost''"
    "keyOf stubPSL ''.'' = ''.''"
    by code_simp+
  note th = removeSecureDomainsByETLD1_by_key
      [of stubPSL "[''mail.good.net'', ''evil.com'', ''localhost'', ''.'']"
          "[''good.net'', ''localhost'']"]
  have r: "removeSecureDomainsByETLD1 stubPSL
     [''mail.good.net'', ''evil.com'', ''localhost'', ''.''] [''good.net'', ''localhost'']
     = [''evil.com'', ''.'']"
    using conjunct1 [OF th] ev(1) by (rule trans)
  have m: "''mail.good.net'' \<notin> set (removeSecureDomainsByETLD1 stubPSL
        [''mail.good.net'', ''evil.com'', ''localhost'', ''.''] [''good.net'', ''localhost''])"
    using conjunct2 [OF conjunct2 [OF th]] ev(2,3) by simp
  show ?thesis
    using r m ev(2-5) by (intro conjI)
qed

subsection \<open>The final lists\<close>

lemma finalLists_eq:
  "finalLists L d a s =
     (difference
        (uniqueSorted (removeSecureDomainsByETLD1 (EffectiveTLDPlusOne L)
                         (normalized L d) (normalized L s)))
        (uniqueSorted (normalized L a)),
      uniqueSorted (normalized L a @ normalized L s))"
  by (simp add: finalLists_def Let_def normalized_def)

lemma strict_difference: "sorted_wrt (<) a \<Longrightarrow> sorted_wrt (<) (difference a b)"
  by (simp add: difference_filter sorted_wrt_filter)

lemma set_difference: "set (difference a b) = set a - set b"
  by (auto simp: difference_filter)

lemma final_deny_set:
  "set (fst (finalLists L d a s)) =
     {x \<in> set (normalized L d). x \<noteq> [] \<and> x \<notin> set (normalized L a) \<and>
        keyOf (EffectiveTLDPlusOne L) x \<notin> keyOf (EffectiveTLDPlusOne L) ` set (normalized L s)}"
  by (auto simp: finalLists_eq set_difference set_uniqueSorted removeSecure_filter)

lemma final_allow_set:
  "set (snd (finalLists L d a s)) = (set (normalized L a) \<union> set (normalized L s)) - {[]}"
  by (simp add: finalLists_eq set_uniqueSorted)

text \<open>
  C2. The final deny list is \<^verbatim>\<open>difference(uniqueSorted(deny), uniqueSorted(allow))\<close> of
  the deny list left by the secure filter and the normalized allow list before the secure
  list is merged into it, so it has no element that is literally in that allow list; it
  has no element in common with the final allow list either.
\<close>

theorem final_deny_excludes_declared_allow:
  assumes "finalLists L deny allow secureLocal = (fd, fa)"
  shows "fd = difference
                (uniqueSorted (removeSecureDomainsByETLD1 (EffectiveTLDPlusOne L)
                                 (normalized L deny) (normalized L secureLocal)))
                (uniqueSorted (normalized L allow))
         \<and> set fd \<inter> set (normalized L allow) = {}
         \<and> set fd \<inter> set fa = {}"
proof -
  have fd: "fd = fst (finalLists L deny allow secureLocal)"
    and fa: "fa = snd (finalLists L deny allow secureLocal)"
    using assms by simp_all
  have "set fd \<inter> set (normalized L allow) = {}"
    unfolding fd final_deny_set by auto
  moreover have "set fd \<inter> set fa = {}"
    unfolding fd fa final_deny_set final_allow_set by auto
  moreover have "fd = difference
                (uniqueSorted (removeSecureDomainsByETLD1 (EffectiveTLDPlusOne L)
                                 (normalized L deny) (normalized L secureLocal)))
                (uniqueSorted (normalized L allow))"
    unfolding fd by (simp add: finalLists_eq)
  ultimately show ?thesis by simp
qed

theorem final_deny_excludes_declared_allow_witness:
  "finalLists stubLib
     [''Example.COM'', ''*.spam.io'', ''#comment'', [], ''trusted.org'', ''mail.good.net'']
     [''Trusted.org''] [''good.net'']
     = ([''example.com'', ''spam.io''], [''good.net'', ''trusted.org''])
   \<and> normalized stubLib [''Trusted.org''] = [''trusted.org'']
   \<and> set [''example.com'', ''spam.io''] \<inter> set (normalized stubLib [''Trusted.org'']) = {}
   \<and> set [''example.com'', ''spam.io''] \<inter> set [''good.net'', ''trusted.org''] = {}"
proof -
  have ev: "finalLists stubLib
     [''Example.COM'', ''*.spam.io'', ''#comment'', [], ''trusted.org'', ''mail.good.net'']
     [''Trusted.org''] [''good.net'']
     = ([''example.com'', ''spam.io''], [''good.net'', ''trusted.org''])"
    by code_simp
  have n: "normalized stubLib [''Trusted.org''] = [''trusted.org'']"
    by code_simp
  note th = final_deny_excludes_declared_allow [OF ev]
  show ?thesis
    using ev n th [THEN conjunct2, THEN conjunct1] th [THEN conjunct2, THEN conjunct2]
    by (intro conjI)
qed

text \<open>
  C3. The final allow list is \<^verbatim>\<open>uniqueSorted\<close> of the normalized allow list followed by
  the normalized secure list: its elements are the non-empty elements of the two lists,
  each once and in ascending order, and every non-empty normalized secure entry is among
  them.
\<close>

theorem final_allow_is_union:
  assumes "finalLists L deny allow secureLocal = (fd, fa)"
  shows "fa = uniqueSorted (normalized L allow @ normalized L secureLocal)
         \<and> set fa = (set (normalized L allow) \<union> set (normalized L secureLocal)) - {[]}
         \<and> distinct fa
         \<and> sorted_wrt (<) fa
         \<and> (\<forall>s \<in> set (normalized L secureLocal). s \<noteq> [] \<longrightarrow> s \<in> set fa)"
proof -
  have fa: "fa = uniqueSorted (normalized L allow @ normalized L secureLocal)"
    using assms by (simp add: finalLists_eq)
  have srt: "sorted_wrt (<) fa"
    unfolding fa by (rule strict_uniqueSorted)
  then have "distinct fa"
    by (simp add: strict_sorted_iff)
  moreover have "set fa = (set (normalized L allow) \<union> set (normalized L secureLocal)) - {[]}"
    unfolding fa by (simp add: set_uniqueSorted)
  ultimately show ?thesis
    using fa srt by auto
qed

theorem final_allow_is_union_witness:
  "finalLists stubLib [''spam.io''] [''zoho.com'', ''Good.net''] [''*.good.net'', ''.'', ''aol.com'']
     = ([''spam.io''], [''aol.com'', ''good.net'', ''zoho.com''])
   \<and> normalized stubLib [''zoho.com'', ''Good.net''] = [''zoho.com'', ''good.net'']
   \<and> normalized stubLib [''*.good.net'', ''.'', ''aol.com''] = [''good.net'', [], ''aol.com'']
   \<and> [''aol.com'', ''good.net'', ''zoho.com'']
       = uniqueSorted (normalized stubLib [''zoho.com'', ''Good.net'']
                       @ normalized stubLib [''*.good.net'', ''.'', ''aol.com''])
   \<and> distinct [''aol.com'', ''good.net'', ''zoho.com'']"
proof -
  have ev: "finalLists stubLib [''spam.io''] [''zoho.com'', ''Good.net'']
              [''*.good.net'', ''.'', ''aol.com'']
            = ([''spam.io''], [''aol.com'', ''good.net'', ''zoho.com''])"
    by code_simp
  have n: "normalized stubLib [''zoho.com'', ''Good.net''] = [''zoho.com'', ''good.net'']"
    "normalized stubLib [''*.good.net'', ''.'', ''aol.com''] = [''good.net'', [], ''aol.com'']"
    by code_simp+
  note th = final_allow_is_union [OF ev]
  show ?thesis
    using ev n th [THEN conjunct1] th [THEN conjunct2, THEN conjunct2, THEN conjunct1]
    by (intro conjI)
qed

subsection \<open>The prefix strip\<close>

text \<open>
  C5, as the code has it. \<^verbatim>\<open>cleanDomains\<close> removes one leading \<^verbatim>\<open>*.\<close> if there is one and
  then, from what is left, one leading \<^verbatim>\<open>.\<close> if there is one. So an entry that begins
  with \<^verbatim>\<open>*..\<close> loses these three bytes, two prefixes, and every other entry loses what
  the specification says: one leading \<^verbatim>\<open>*.\<close>, else one leading \<^verbatim>\<open>.\<close>, else nothing.
\<close>

theorem cleanDomains_star_then_dot:
  "cleanDomains ins =
     map (\<lambda>s. if HasPrefix s ''*..'' then drop 3 s else stripWildcardPrefix s) ins"
proof -
  have "cleanDomain s = (if HasPrefix s ''*..'' then drop 3 s else stripWildcardPrefix s)" for s
  proof (cases s)
    case Nil
    then show ?thesis
      by (simp add: cleanDomain_def stripWildcardPrefix_def TrimPrefix_def HasPrefix_def)
  next
    case s: (Cons a t)
    show ?thesis
    proof (cases t)
      case Nil
      with s show ?thesis
        by (simp add: cleanDomain_def stripWildcardPrefix_def TrimPrefix_def HasPrefix_def)
    next
      case (Cons b u)
      with s show ?thesis
        by (cases u)
          (auto simp: cleanDomain_def stripWildcardPrefix_def TrimPrefix_def HasPrefix_def)
    qed
  qed
  then show ?thesis
    by (simp add: cleanDomains_def)
qed

theorem cleanDomains_star_then_dot_witness:
  "cleanDomains [''*..a.com'', ''..b.org'', ''*.c.net'', ''.d.io'', ''e.com'', ''*.*.f.com'']
     = [''a.com'', ''.b.org'', ''c.net'', ''d.io'', ''e.com'', ''*.f.com'']"
proof -
  have ev: "map (\<lambda>s. if HasPrefix s ''*..'' then drop 3 s else stripWildcardPrefix s)
              [''*..a.com'', ''..b.org'', ''*.c.net'', ''.d.io'', ''e.com'', ''*.*.f.com'']
            = [''a.com'', ''.b.org'', ''c.net'', ''d.io'', ''e.com'', ''*.f.com'']"
    by code_simp
  show ?thesis
    using cleanDomains_star_then_dot
      [of "[''*..a.com'', ''..b.org'', ''*.c.net'', ''.d.io'', ''e.com'', ''*.*.f.com'']"] ev
    by (rule trans)
qed

text \<open>
  C5 as stated fails: from \<^verbatim>\<open>*..a.com\<close> the specification's single strip leaves
  \<^verbatim>\<open>.a.com\<close>, the code leaves \<^verbatim>\<open>a.com\<close>.
\<close>

theorem cleanDomains_strips_two_prefixes:
  "cleanDomains [''*..a.com''] \<noteq> map stripWildcardPrefix [''*..a.com'']"
  by (simp add: cleanDomains_def cleanDomain_def stripWildcardPrefix_def TrimPrefix_def
      HasPrefix_def)

subsection \<open>The difference step\<close>

text \<open>
  C10. \<^verbatim>\<open>difference a b\<close> is a subsequence of \<open>a\<close> with the elements of \<open>a\<close> that are not
  in \<open>b\<close>; it is strictly ascending when \<open>a\<close> is. The final deny list, the difference of a
  \<^verbatim>\<open>uniqueSorted\<close> list, is therefore strictly ascending and free of duplicates with no
  further sort.
\<close>

theorem difference_subseq_sorted:
  "subseq (difference a b) a
   \<and> set (difference a b) = set a - set b
   \<and> (sorted_wrt (<) a \<longrightarrow> sorted_wrt (<) (difference a b))
   \<and> (finalLists L deny allow secureLocal = (fd, fa) \<longrightarrow>
        fd = difference
               (uniqueSorted (removeSecureDomainsByETLD1 (EffectiveTLDPlusOne L)
                                (normalized L deny) (normalized L secureLocal)))
               (uniqueSorted (normalized L allow))
        \<and> sorted_wrt (<) fd \<and> distinct fd)"
proof (intro conjI impI)
  show "subseq (difference a b) a"
    by (simp add: difference_filter)
  show "set (difference a b) = set a - set b"
    by (rule set_difference)
  show "sorted_wrt (<) (difference a b)" if "sorted_wrt (<) a"
    using that by (rule strict_difference)
next
  assume "finalLists L deny allow secureLocal = (fd, fa)"
  then show fd: "fd = difference
               (uniqueSorted (removeSecureDomainsByETLD1 (EffectiveTLDPlusOne L)
                                (normalized L deny) (normalized L secureLocal)))
               (uniqueSorted (normalized L allow))"
    by (simp add: finalLists_eq)
  show s: "sorted_wrt (<) fd"
    unfolding fd by (rule strict_difference) (rule strict_uniqueSorted)
  then show "distinct fd"
    by (simp add: strict_sorted_iff)
qed

theorem difference_subseq_sorted_witness:
  "difference [''a.com'', ''b.com'', ''c.com'', ''d.com''] [''c.com'', ''x.com'', ''a.com'']
     = [''b.com'', ''d.com'']
   \<and> subseq (difference [''a.com'', ''b.com'', ''c.com'', ''d.com'']
                [''c.com'', ''x.com'', ''a.com''])
        [''a.com'', ''b.com'', ''c.com'', ''d.com'']
   \<and> sorted_wrt (<) [''a.com'', ''b.com'', ''c.com'', ''d.com'']
   \<and> sorted_wrt (<) (difference [''a.com'', ''b.com'', ''c.com'', ''d.com'']
                        [''c.com'', ''x.com'', ''a.com''])
   \<and> finalLists stubLib [''b.com'', ''A.com'', ''b.com'', ''c.com''] [''c.com''] []
       = ([''a.com'', ''b.com''], [''c.com''])
   \<and> sorted_wrt (<) [''a.com'', ''b.com''] \<and> distinct [''a.com'', ''b.com'']"
proof -
  have ev: "difference [''a.com'', ''b.com'', ''c.com'', ''d.com'']
              [''c.com'', ''x.com'', ''a.com''] = [''b.com'', ''d.com'']"
    by code_simp
  have srt: "sorted_wrt (<) [''a.com'', ''b.com'', ''c.com'', ''d.com'']"
    by code_simp
  have fin: "finalLists stubLib [''b.com'', ''A.com'', ''b.com'', ''c.com''] [''c.com''] []
       = ([''a.com'', ''b.com''], [''c.com''])"
    by code_simp
  note th = difference_subseq_sorted
    [of "[''a.com'', ''b.com'', ''c.com'', ''d.com'']" "[''c.com'', ''x.com'', ''a.com'']"
        stubLib "[''b.com'', ''A.com'', ''b.com'', ''c.com'']" "[''c.com'']" "[]"
        "[''a.com'', ''b.com'']" "[''c.com'']"]
  have fd: "sorted_wrt (<) [''a.com'', ''b.com''] \<and> distinct [''a.com'', ''b.com'']"
    using th [THEN conjunct2, THEN conjunct2, THEN conjunct2, THEN mp, OF fin]
    by (rule conjunct2)
  show ?thesis
    using ev th [THEN conjunct1] srt
      th [THEN conjunct2, THEN conjunct2, THEN conjunct1, THEN mp, OF srt] fin
      fd [THEN conjunct1] fd [THEN conjunct2]
    by (intro conjI)
qed

subsection \<open>Decoding a JSON source\<close>

lemma storeElements_fst: "fst (storeElements vs) = None \<longleftrightarrow> list_all stringOrNull vs"
proof (induction vs)
  case Nil
  show ?case by simp
next
  case (Cons v vs)
  obtain saved arr where p: "storeElements vs = (saved, arr)"
    by (cases "storeElements vs")
  with Cons have "saved = None \<longleftrightarrow> list_all stringOrNull vs"
    by simp
  with p show ?case
    by (cases v) simp_all
qed

lemma storeElements_snd: "list_all stringOrNull vs \<Longrightarrow> snd (storeElements vs) = map stringOf vs"
proof (induction vs)
  case Nil
  show ?case by simp
next
  case (Cons v vs)
  obtain saved arr where p: "storeElements vs = (saved, arr)"
    by (cases "storeElements vs")
  with Cons have "arr = map stringOf vs"
    by simp
  with p Cons.prems show ?case
    by (cases v) simp_all
qed

lemma unmarshalStrings_array:
  "unmarshalStrings (JArray vs) =
     (if list_all stringOrNull vs then Inr (map stringOf vs)
      else Inl (the (fst (storeElements vs))))"
proof (cases "storeElements vs")
  case (Pair saved arr)
  show ?thesis
  proof (cases saved)
    case None
    with Pair storeElements_fst [of vs] storeElements_snd [of vs] show ?thesis
      by simp
  next
    case (Some err)
    with Pair storeElements_fst [of vs] show ?thesis
      by auto
  qed
qed

text \<open>
  C7, as the code has it. \<^verbatim>\<open>fetchJSONStrings\<close> returns a decode error exactly when the
  body is not JSON, or is a JSON value that is neither an array nor \<^verbatim>\<open>null\<close>, or is an
  array with an element that is neither a string nor \<^verbatim>\<open>null\<close>. Otherwise it returns
  strings: none for \<^verbatim>\<open>null\<close>, and for an array its elements in order, with the empty
  string for a \<^verbatim>\<open>null\<close> element; an array of strings gives just these strings. A decode
  error wraps its cause, with \<^verbatim>\<open>decode json: \<close> before the message of the cause.
\<close>

theorem decodeJSONStrings_error_iff:
  "((\<exists>err. decodeJSONStrings doc = Inl err) \<longleftrightarrow> \<not> accepted doc)
   \<and> (accepted doc \<longrightarrow> decodeJSONStrings doc = Inr (elementsOf doc))
   \<and> decodeJSONStrings (Inr (JArray (map JString ss))) = Inr ss
   \<and> (\<forall>err. decodeJSONStrings doc = Inl err \<longrightarrow>
        (\<exists>cause. err = WrapError (''decode json: '' @ Error cause) cause))"
proof (intro conjI allI impI)
  show "(\<exists>err. decodeJSONStrings doc = Inl err) \<longleftrightarrow> \<not> accepted doc"
  proof (cases doc)
    case (Inl e)
    then show ?thesis by (simp add: decodeJSONStrings_def Unmarshal_def accepted_def)
  next
    case (Inr v)
    then show ?thesis
      by (cases v)
        (simp_all add: decodeJSONStrings_def Unmarshal_def accepted_def unmarshalStrings_array
          del: unmarshalStrings.simps(2))
  qed
  show "decodeJSONStrings doc = Inr (elementsOf doc)" if "accepted doc"
  proof (cases doc)
    case (Inl e)
    with that show ?thesis by (simp add: accepted_def)
  next
    case (Inr v)
    with that show ?thesis
      by (cases v)
        (simp_all add: decodeJSONStrings_def Unmarshal_def accepted_def unmarshalStrings_array
          del: unmarshalStrings.simps(2))
  qed
  have "list_all stringOrNull (map JString ss)" "map stringOf (map JString ss) = ss"
    by (induction ss) simp_all
  then show "decodeJSONStrings (Inr (JArray (map JString ss))) = Inr ss"
    by (simp add: decodeJSONStrings_def Unmarshal_def unmarshalStrings_array
        del: unmarshalStrings.simps(2))
  show "\<exists>cause. err = WrapError (''decode json: '' @ Error cause) cause"
    if "decodeJSONStrings doc = Inl err" for err
    using that by (auto simp: decodeJSONStrings_def split: sum.splits)
qed

theorem decodeJSONStrings_error_iff_witness:
  "decodeJSONStrings (Inr (JArray [JString ''a.com'', JNumber ''1'']))
     = Inl (WrapError ''decode json: json: cannot unmarshal number into Go value of type string''
              (UnmarshalTypeError ''number'' ''string''))
   \<and> \<not> accepted (Inr (JArray [JString ''a.com'', JNumber ''1'']))
   \<and> accepted (Inr (JArray [JString ''a.com'', JNull]))
   \<and> decodeJSONStrings (Inr (JArray [JString ''a.com'', JNull])) = Inr [''a.com'', []]
   \<and> decodeJSONStrings (Inr (JObject [])) 
       = Inl (WrapError ''decode json: json: cannot unmarshal object into Go value of type []string''
              (UnmarshalTypeError ''object'' ''[]string''))"
proof -
  have e1: "decodeJSONStrings (Inr (JArray [JString ''a.com'', JNumber ''1'']))
     = Inl (WrapError ''decode json: json: cannot unmarshal number into Go value of type string''
              (UnmarshalTypeError ''number'' ''string''))"
    by code_simp
  have e2: "accepted (Inr (JArray [JString ''a.com'', JNull]))"
    by code_simp
  have e3: "elementsOf (Inr (JArray [JString ''a.com'', JNull])) = [''a.com'', []]"
    by code_simp
  have e4: "decodeJSONStrings (Inr (JObject [])) 
       = Inl (WrapError ''decode json: json: cannot unmarshal object into Go value of type []string''
              (UnmarshalTypeError ''object'' ''[]string''))"
    by code_simp
  have n: "\<not> accepted (Inr (JArray [JString ''a.com'', JNumber ''1'']))"
    using decodeJSONStrings_error_iff [of "Inr (JArray [JString ''a.com'', JNumber ''1''])", THEN conjunct1] e1
    by blast
  have r: "decodeJSONStrings (Inr (JArray [JString ''a.com'', JNull])) = Inr [''a.com'', []]"
    using decodeJSONStrings_error_iff [of "Inr (JArray [JString ''a.com'', JNull])", THEN conjunct2, THEN conjunct1] e2 e3
    by simp
  show ?thesis
    using e1 n e2 r e4 by (intro conjI)
qed

text \<open>
  C7 as stated fails: \<^verbatim>\<open>null\<close> is not an array of strings, and neither is an array with
  a \<^verbatim>\<open>null\<close> element, yet both are decoded without an error.
\<close>

theorem decodeJSONStrings_accepts_null:
  "decodeJSONStrings (Inr JNull) = Inr []
   \<and> decodeJSONStrings (Inr (JArray [JNull, JString ''a.com''])) = Inr [[], ''a.com'']"
  by (simp add: decodeJSONStrings_def Unmarshal_def)

subsection \<open>Splitting a text source\<close>

lemma SplitFrom_not_Nil: "SplitFrom sep cur s \<noteq> []"
  by (induction s arbitrary: cur) auto

lemma SplitFrom_Join:
  "Join (SplitFrom sep cur s) [sep] = rev cur @ s"
proof (induction s arbitrary: cur)
  case Nil
  show ?case by simp
next
  case (Cons c cs)
  show ?case
  proof (cases "c = sep")
    case True
    obtain l ls where "SplitFrom sep [] cs = l # ls"
      using SplitFrom_not_Nil [of sep "[]" cs] by (auto simp: neq_Nil_conv)
    with True Cons [of "[]"] show ?thesis by simp
  next
    case False
    with Cons [of "c # cur"] show ?thesis by simp
  qed
qed

lemma SplitFrom_no_sep:
  "sep \<notin> set cur \<Longrightarrow> \<forall>l \<in> set (SplitFrom sep cur s). sep \<notin> set l"
proof (induction s arbitrary: cur)
  case Nil
  then show ?case by simp
next
  case (Cons c cs)
  show ?case
  proof (cases "c = sep")
    case True
    with Cons.prems Cons.IH [of "[]"] show ?thesis by simp
  next
    case False
    with Cons.prems Cons.IH [of "c # cur"] show ?thesis by simp
  qed
qed

lemma SplitFrom_length: "length (SplitFrom sep cur s) = Suc (count_list s sep)"
  by (induction s arbitrary: cur) auto

lemma SplitFrom_append_sep:
  "sep \<notin> set l \<Longrightarrow> SplitFrom sep cur (l @ sep # rest) = (rev cur @ l) # SplitFrom sep [] rest"
  by (induction l arbitrary: cur) auto

text \<open>
  C8, as the code has it. \<^verbatim>\<open>fetchTextLines\<close> splits the fetched body at every \<^verbatim>\<open>\n\<close> and
  nowhere else: no returned line holds a \<^verbatim>\<open>\n\<close>, there is one line more than there are
  \<^verbatim>\<open>\n\<close> bytes, and the lines joined with \<^verbatim>\<open>\n\<close> are the body again, so that nothing is
  dropped, empty lines included. A \<^verbatim>\<open>\r\<close> before a \<^verbatim>\<open>\n\<close> stays the last byte of its
  line. A fetch error is passed on.
\<close>

theorem textLines_split_at_newline:
  "Join (textLines b) [CHR 0x0A] = b
   \<and> (\<forall>l \<in> set (textLines b). CHR 0x0A \<notin> set l)
   \<and> length (textLines b) = Suc (count_list b (CHR 0x0A))
   \<and> (CHR 0x0A \<notin> set l \<longrightarrow>
        textLines (l @ [CHR 0x0D, CHR 0x0A] @ rest) = (l @ [CHR 0x0D]) # textLines rest)
   \<and> (fetch E L url w = (Inr (b, None), w') \<longrightarrow>
        fetchTextLines E L url w = (Inr (Inr (textLines b)), w'))
   \<and> (fetch E L url w = (Inr (b', Some err), w') \<longrightarrow>
        fetchTextLines E L url w = (Inr (Inl err), w'))"
proof (intro conjI ballI impI)
  show "Join (textLines b) [CHR 0x0A] = b"
    by (simp add: textLines_def Split_def SplitFrom_Join)
  show "CHR 0x0A \<notin> set l" if "l \<in> set (textLines b)" for l
    using that SplitFrom_no_sep [of "CHR 0x0A" "[]" b] by (simp add: textLines_def Split_def)
  show "length (textLines b) = Suc (count_list b (CHR 0x0A))"
    by (simp add: textLines_def Split_def SplitFrom_length)
  show "textLines (l @ [CHR 0x0D, CHR 0x0A] @ rest) = (l @ [CHR 0x0D]) # textLines rest"
    if "CHR 0x0A \<notin> set l"
    using that SplitFrom_append_sep [of "CHR 0x0A" "l @ [CHR 0x0D]" "[]" rest]
    by (simp add: textLines_def Split_def)
  show "fetchTextLines E L url w = (Inr (Inr (textLines b)), w')"
    if "fetch E L url w = (Inr (b, None), w')"
    using that by (simp add: fetchTextLines_def)
  show "fetchTextLines E L url w = (Inr (Inl err), w')"
    if "fetch E L url w = (Inr (b', Some err), w')"
    using that by (simp add: fetchTextLines_def)
qed

theorem textLines_split_at_newline_witness:
  "textLines (''a.com'' @ [CHR 0x0D, CHR 0x0A] @ ''b.com'' @ [CHR 0x0A, CHR 0x0A])
     = [''a.com'' @ [CHR 0x0D], ''b.com'', [], []]
   \<and> Join (textLines (''a.com'' @ [CHR 0x0D, CHR 0x0A] @ ''b.com'' @ [CHR 0x0A, CHR 0x0A]))
        [CHR 0x0A]
     = ''a.com'' @ [CHR 0x0D, CHR 0x0A] @ ''b.com'' @ [CHR 0x0A, CHR 0x0A]
   \<and> length (textLines (''a.com'' @ [CHR 0x0D, CHR 0x0A] @ ''b.com'' @ [CHR 0x0A, CHR 0x0A])) = 4"
proof -
  have ev: "textLines (''a.com'' @ [CHR 0x0D, CHR 0x0A] @ ''b.com'' @ [CHR 0x0A, CHR 0x0A])
     = [''a.com'' @ [CHR 0x0D], ''b.com'', [], []]"
    by code_simp
  have c: "Suc (count_list (''a.com'' @ [CHR 0x0D, CHR 0x0A] @ ''b.com'' @ [CHR 0x0A, CHR 0x0A])
             (CHR 0x0A)) = 4"
    by code_simp
  note th = textLines_split_at_newline [of "''a.com'' @ [CHR 0x0D, CHR 0x0A] @ ''b.com'' @ [CHR 0x0A, CHR 0x0A]"]
  show ?thesis
    using ev th [THEN conjunct1]
      trans [OF th [THEN conjunct2, THEN conjunct2, THEN conjunct1] c]
    by (intro conjI)
qed

text \<open>
  C8 as stated fails: of the body \<^verbatim>\<open>a.com\r\nb.com\<close> the first returned line is
  \<^verbatim>\<open>a.com\r\<close>, with its carriage return.
\<close>

theorem textLines_keeps_carriage_return:
  "''a.com'' @ [CHR 0x0D] \<in> set (textLines (''a.com'' @ [CHR 0x0D, CHR 0x0A] @ ''b.com''))"
  by (simp add: textLines_def Split_def)

text \<open>
  For comparison, \<^verbatim>\<open>splitLines\<close> of main.go does what \<^verbatim>\<open>fetchTextLines\<close> does not: it
  takes one trailing \<^verbatim>\<open>\r\<close> from every line, and it drops a last line that is empty.
\<close>

lemma splitLinesFrom_SplitFrom:
  "splitLinesFrom cur s =
     (let ls = map dropCR (SplitFrom (CHR 0x0A) cur s)
      in if last ls = [] then butlast ls else ls)"
proof (induction s arbitrary: cur)
  case Nil
  show ?case by (simp add: Let_def)
next
  case (Cons c cs)
  show ?case
  proof (cases "c = CHR 0x0A")
    case True
    with Cons [of "[]"] SplitFrom_not_Nil [of "CHR 0x0A" "[]" cs] show ?thesis
      by (simp add: Let_def)
  next
    case False
    with Cons [of "c # cur"] show ?thesis by simp
  qed
qed

lemma splitLines_textLines:
  "splitLines s =
     (let ls = map dropCR (textLines s) in if last ls = [] then butlast ls else ls)"
  by (simp add: splitLines_def textLines_def Split_def splitLinesFrom_SplitFrom)

subsection \<open>The pipeline\<close>

text \<open>
  A URL that the request constructor refuses makes \<^verbatim>\<open>fetch\<close> panic at once, and a panic
  of a fetch phase is the result of \<^verbatim>\<open>Run\<close>.
\<close>

lemma fetch_panics:
  "NewRequestWithContext L url \<noteq> None \<Longrightarrow> fetch E L url w = (Inl NilPointerDereference, w)"
  by (simp add: fetch_def)

lemma Run_panics:
  "obtainAllDomains E L (TextDeny cfg) (JSONDeny cfg) w = (Inl p, w1) \<Longrightarrow>
     Run E L cfg w = (Inl p, w1)"
  "obtainAllDomains E L (TextDeny cfg) (JSONDeny cfg) w = (Inr (d, derr), w1) \<Longrightarrow>
   obtainAllDomains E L (TextAllow cfg) (JSONAllow cfg) w1 = (Inl p, w2) \<Longrightarrow>
     Run E L cfg w = (Inl p, w2)"
  by (simp_all add: Run_def)


lemma Run_eq:
  assumes "obtainAllDomains E L (TextDeny cfg) (JSONDeny cfg) w = (Inr (d, derr), w1)"
    and "obtainAllDomains E L (TextAllow cfg) (JSONAllow cfg) w1 = (Inr (a, aerr), w2)"
    and "finalLists L d a (SecureLocal cfg) = (fd, fa)"
  shows "Run E L cfg w =
     (case writeOutputs E L cfg fd fa w2 of
        (Some werr, w3) \<Rightarrow>
          (case fetchDiagnostic derr aerr of
             Some e \<Rightarrow> (Inr (0, 0, Some (WrapError (Error e @ ''; '' @ Error werr) werr)), w3)
           | None \<Rightarrow> (Inr (0, 0, Some werr), w3))
      | (None, w3) \<Rightarrow> (Inr (int (length fd), int (length fa), fetchDiagnostic derr aerr), w3))"
  using assms by (simp add: Run_def Let_def)

text \<open>
  C9. Let the two fetch phases return, and the reconciliation give the final lists \<open>fd\<close>
  and \<open>fa\<close> in the world \<open>w2\<close>. If \<^verbatim>\<open>writeOutputs\<close> fails with \<open>werr\<close>, \<^verbatim>\<open>Run\<close> returns the
  counts 0 and 0 and an error: \<open>werr\<close> itself when there is no fetch diagnostic, and
  otherwise an error that wraps \<open>werr\<close> and whose message is the diagnostic's, then
  \<^verbatim>\<open>; \<close>, then the message of \<open>werr\<close>. If \<^verbatim>\<open>writeOutputs\<close> succeeds, \<^verbatim>\<open>Run\<close> returns
  the lengths of the two lists and the fetch diagnostic, which is absent exactly when
  both fetch phases had no error. \<^verbatim>\<open>writeOutputs\<close> stops at the first of its four writes
  that fails, in the world that this write left: the writes before it stay done, the
  writes after it are not made.
\<close>

theorem Run_write_error_fatal:
  assumes d: "obtainAllDomains E L (TextDeny cfg) (JSONDeny cfg) w = (Inr (d, derr), w1)"
    and a: "obtainAllDomains E L (TextAllow cfg) (JSONAllow cfg) w1 = (Inr (a, aerr), w2)"
    and f: "finalLists L d a (SecureLocal cfg) = (fd, fa)"
  shows
    "(\<forall>werr w3. writeOutputs E L cfg fd fa w2 = (Some werr, w3) \<longrightarrow>
        (fetchDiagnostic derr aerr = None \<longrightarrow> Run E L cfg w = (Inr (0, 0, Some werr), w3)) \<and>
        (\<forall>e. fetchDiagnostic derr aerr = Some e \<longrightarrow>
           (\<exists>r. Run E L cfg w = (Inr (0, 0, Some r), w3) \<and>
                Error r = Error e @ ''; '' @ Error werr \<and> Unwrap r = Some werr)))
     \<and> (\<forall>w3. writeOutputs E L cfg fd fa w2 = (None, w3) \<longrightarrow>
          Run E L cfg w = (Inr (int (length fd), int (length fa), fetchDiagnostic derr aerr), w3))
     \<and> (\<forall>err v1. writeText E L (TextDenyOut cfg) fd w2 = (Some err, v1) \<longrightarrow>
          writeOutputs E L cfg fd fa w2 = (Some err, v1))
     \<and> (\<forall>err v1 v2. writeText E L (TextDenyOut cfg) fd w2 = (None, v1) \<and>
          writeJSON E L (JSONDenyOut cfg) fd v1 = (Some err, v2) \<longrightarrow>
          writeOutputs E L cfg fd fa w2 = (Some err, v2))
     \<and> (\<forall>err v1 v2 v3. writeText E L (TextDenyOut cfg) fd w2 = (None, v1) \<and>
          writeJSON E L (JSONDenyOut cfg) fd v1 = (None, v2) \<and>
          writeText E L (TextAllowOut cfg) fa v2 = (Some err, v3) \<longrightarrow>
          writeOutputs E L cfg fd fa w2 = (Some err, v3))
     \<and> (\<forall>r v1 v2 v3 v4. writeText E L (TextDenyOut cfg) fd w2 = (None, v1) \<and>
          writeJSON E L (JSONDenyOut cfg) fd v1 = (None, v2) \<and>
          writeText E L (TextAllowOut cfg) fa v2 = (None, v3) \<and>
          writeJSON E L (JSONAllowOut cfg) fa v3 = (r, v4) \<longrightarrow>
          writeOutputs E L cfg fd fa w2 = (r, v4))
     \<and> (fetchDiagnostic derr aerr = None \<longleftrightarrow> derr = None \<and> aerr = None)"
proof (intro conjI allI impI)
  note run = Run_eq [OF d a f]
  fix werr w3
  assume wo: "writeOutputs E L cfg fd fa w2 = (Some werr, w3)"
  show "Run E L cfg w = (Inr (0, 0, Some werr), w3)" if "fetchDiagnostic derr aerr = None"
    using that wo by (simp add: run)
  show "\<exists>r. Run E L cfg w = (Inr (0, 0, Some r), w3) \<and>
                Error r = Error e @ ''; '' @ Error werr \<and> Unwrap r = Some werr"
    if "fetchDiagnostic derr aerr = Some e" for e
    using that wo by (simp add: run)
next
  fix w3
  assume "writeOutputs E L cfg fd fa w2 = (None, w3)"
  then show "Run E L cfg w = (Inr (int (length fd), int (length fa), fetchDiagnostic derr aerr), w3)"
    by (simp add: Run_eq [OF d a f])
next
  fix err v1
  assume "writeText E L (TextDenyOut cfg) fd w2 = (Some err, v1)"
  then show "writeOutputs E L cfg fd fa w2 = (Some err, v1)"
    by (simp add: writeOutputs_def)
next
  fix err v1 v2
  assume "writeText E L (TextDenyOut cfg) fd w2 = (None, v1) \<and>
          writeJSON E L (JSONDenyOut cfg) fd v1 = (Some err, v2)"
  then show "writeOutputs E L cfg fd fa w2 = (Some err, v2)"
    by (simp add: writeOutputs_def)
next
  fix err v1 v2 v3
  assume "writeText E L (TextDenyOut cfg) fd w2 = (None, v1) \<and>
          writeJSON E L (JSONDenyOut cfg) fd v1 = (None, v2) \<and>
          writeText E L (TextAllowOut cfg) fa v2 = (Some err, v3)"
  then show "writeOutputs E L cfg fd fa w2 = (Some err, v3)"
    by (simp add: writeOutputs_def)
next
  fix r v1 v2 v3 v4
  assume "writeText E L (TextDenyOut cfg) fd w2 = (None, v1) \<and>
          writeJSON E L (JSONDenyOut cfg) fd v1 = (None, v2) \<and>
          writeText E L (TextAllowOut cfg) fa v2 = (None, v3) \<and>
          writeJSON E L (JSONAllowOut cfg) fa v3 = (r, v4)"
  then show "writeOutputs E L cfg fd fa w2 = (r, v4)"
    by (cases r) (simp_all add: writeOutputs_def)
next
  show "fetchDiagnostic derr aerr = None \<longleftrightarrow> derr = None \<and> aerr = None"
    by (simp add: fetchDiagnostic_def)
qed

theorem Run_write_error_fatal_witness:
  "(\<exists>r. Run stubOS stubLib stubConfigRO []
          = (Inr (0, 0, Some r), [(''lists/deny.txt'', ''example.com'' @ [CHR 0x0A] @ ''spam.io'')])
        \<and> Error r = ''https://b/x.json: http 500; read-only file system''
        \<and> Unwrap r = Some (ErrorString ''read-only file system''))
   \<and> writeOutputs stubOS stubLib stubConfigRO
         [''example.com'', ''spam.io''] [''good.net'', ''trusted.org''] []
       = (Some (ErrorString ''read-only file system''),
          [(''lists/deny.txt'', ''example.com'' @ [CHR 0x0A] @ ''spam.io'')])"
proof -
  have d: "obtainAllDomains stubOS stubLib (TextDeny stubConfigRO) (JSONDeny stubConfigRO) []
      = (Inr ([''Example.COM'' @ [CHR 0x0D], ''*.spam.io'', ''#comment'', [], ''trusted.org'',
           ''mail.good.net''],
          Some (ErrorString ''https://b/x.json: http 500'')), [])"
    by code_simp
  have a: "obtainAllDomains stubOS stubLib (TextAllow stubConfigRO) (JSONAllow stubConfigRO) []
      = (Inr ([''Trusted.org''], None), [])"
    by code_simp
  have f: "finalLists stubLib
             [''Example.COM'' @ [CHR 0x0D], ''*.spam.io'', ''#comment'', [], ''trusted.org'',
              ''mail.good.net'']
             [''Trusted.org''] (SecureLocal stubConfigRO)
      = ([''example.com'', ''spam.io''], [''good.net'', ''trusted.org''])"
    by code_simp
  have w1: "writeText stubOS stubLib (TextDenyOut stubConfigRO) [''example.com'', ''spam.io''] []
      = (None, [(''lists/deny.txt'', ''example.com'' @ [CHR 0x0A] @ ''spam.io'')])"
    by code_simp
  have w2: "writeJSON stubOS stubLib (JSONDenyOut stubConfigRO) [''example.com'', ''spam.io'']
              [(''lists/deny.txt'', ''example.com'' @ [CHR 0x0A] @ ''spam.io'')]
      = (Some (ErrorString ''read-only file system''),
         [(''lists/deny.txt'', ''example.com'' @ [CHR 0x0A] @ ''spam.io'')])"
    by code_simp
  have g: "fetchDiagnostic (Some (ErrorString ''https://b/x.json: http 500'')) None
      = Some (ErrorString ''https://b/x.json: http 500'')"
    by code_simp
  note th = Run_write_error_fatal [OF d a f]
  from th w1 w2 have wo: "writeOutputs stubOS stubLib stubConfigRO
         [''example.com'', ''spam.io''] [''good.net'', ''trusted.org''] []
       = (Some (ErrorString ''read-only file system''),
          [(''lists/deny.txt'', ''example.com'' @ [CHR 0x0A] @ ''spam.io'')])"
    by blast
  from th wo g have "\<exists>r. Run stubOS stubLib stubConfigRO []
          = (Inr (0, 0, Some r), [(''lists/deny.txt'', ''example.com'' @ [CHR 0x0A] @ ''spam.io'')])
        \<and> Error r = Error (ErrorString ''https://b/x.json: http 500'') @ ''; '' @
                      Error (ErrorString ''read-only file system'')
        \<and> Unwrap r = Some (ErrorString ''read-only file system'')"
    by blast
  then have "\<exists>r. Run stubOS stubLib stubConfigRO []
          = (Inr (0, 0, Some r), [(''lists/deny.txt'', ''example.com'' @ [CHR 0x0A] @ ''spam.io'')])
        \<and> Error r = ''https://b/x.json: http 500; read-only file system''
        \<and> Unwrap r = Some (ErrorString ''read-only file system'')"
    by simp
  with wo show ?thesis
    by (intro conjI)
qed

subsection \<open>The published order\<close>

text \<open>
  The text form of a list whose entries hold no \<^verbatim>\<open>\n\<close> splits back into the list: its
  lines are the entries, in the order of the list.
\<close>

lemma SplitFrom_no_sep_in: "sep \<notin> set s \<Longrightarrow> SplitFrom sep cur s = [rev cur @ s]"
  by (induction s arbitrary: cur) auto

lemma Split_Join:
  "sp = [sep] \<Longrightarrow> ls \<noteq> [] \<Longrightarrow> \<forall>l \<in> set ls. sep \<notin> set l \<Longrightarrow> Split (Join ls sp) sep = ls"
proof (induction ls sp rule: Join.induct)
  case (1 sp)
  then show ?case by simp
next
  case (2 x sp)
  then show ?case
    by (simp add: Split_def SplitFrom_no_sep_in)
next
  case (3 x y ys sp)
  then have "Split (Join (y # ys) sp) sep = y # ys"
    by simp
  moreover from "3.prems" have "sep \<notin> set x"
    by simp
  ultimately show ?case
    using SplitFrom_append_sep [of sep x "[]" "Join (y # ys) sp"] "3.prems"(1)
    by (simp add: Split_def)
qed

lemma textLines_Join:
  "ls \<noteq> [] \<Longrightarrow> \<forall>l \<in> set ls. CHR 0x0A \<notin> set l \<Longrightarrow> textLines (Join ls [CHR 0x0A]) = ls"
  by (simp add: textLines_def Split_Join)

text \<open>
  C6. \<^verbatim>\<open>uniqueSorted\<close> returns the non-empty entries of its input, each once, in strictly
  ascending order, and the same list for any two inputs with the same entries, whatever
  their order. Both final lists are strictly ascending, and they are the lists that
  \<^verbatim>\<open>Run\<close> hands to \<^verbatim>\<open>writeOutputs\<close>, which writes each in this order as text and as
  JSON.
\<close>

theorem uniqueSorted_strictly_ascending:
  "sorted_wrt (<) (uniqueSorted ins)
   \<and> set (uniqueSorted ins) = {s \<in> set ins. s \<noteq> []}
   \<and> (set ins' = set ins \<longrightarrow> uniqueSorted ins' = uniqueSorted ins)
   \<and> (finalLists L deny allow secureLocal = (fd, fa) \<longrightarrow>
        sorted_wrt (<) fd \<and> sorted_wrt (<) fa)
   \<and> (obtainAllDomains E L (TextDeny cfg) (JSONDeny cfg) w = (Inr (d, derr), w1) \<and>
      obtainAllDomains E L (TextAllow cfg) (JSONAllow cfg) w1 = (Inr (a, aerr), w2) \<and>
      finalLists L d a (SecureLocal cfg) = (fd', fa') \<longrightarrow>
        snd (Run E L cfg w) = snd (writeOutputs E L cfg fd' fa' w2) \<and>
        sorted_wrt (<) fd' \<and> sorted_wrt (<) fa')"
proof -
  have fin: "sorted_wrt (<) x \<and> sorted_wrt (<) y" if "finalLists L' p q r = (x, y)"
    for L' p q r x y
    using that
    by (auto simp: finalLists_eq intro: strict_difference strict_uniqueSorted)
  have "snd (Run E L cfg w) = snd (writeOutputs E L cfg fd' fa' w2)"
    if "obtainAllDomains E L (TextDeny cfg) (JSONDeny cfg) w = (Inr (d, derr), w1)"
      and "obtainAllDomains E L (TextAllow cfg) (JSONAllow cfg) w1 = (Inr (a, aerr), w2)"
      and "finalLists L d a (SecureLocal cfg) = (fd', fa')"
    by (simp add: Run_eq [OF that] split: prod.splits option.splits)
  moreover have "set (uniqueSorted ins) = {s \<in> set ins. s \<noteq> []}"
    by (auto simp: set_uniqueSorted)
  ultimately show ?thesis
    using fin strict_uniqueSorted [of ins] uniqueSorted_cong [of ins' ins]
    by blast
qed

theorem uniqueSorted_strictly_ascending_witness:
  "uniqueSorted [''b.com'', [], ''a.com'', ''b.com'', ''ab.com''] = [''a.com'', ''ab.com'', ''b.com'']
   \<and> uniqueSorted [''ab.com'', ''b.com'', ''a.com''] = [''a.com'', ''ab.com'', ''b.com'']
   \<and> sorted_wrt (<) (uniqueSorted [''b.com'', [], ''a.com'', ''b.com'', ''ab.com''])
   \<and> (''lists/deny.txt'', ''example.com'' @ [CHR 0x0A] @ ''spam.io'')
        \<in> set (snd (Run stubOS stubLib stubConfig []))
   \<and> (''lists/allow.txt'', ''good.net'' @ [CHR 0x0A] @ ''trusted.org'')
        \<in> set (snd (Run stubOS stubLib stubConfig []))"
proof -
  have u: "uniqueSorted [''b.com'', [], ''a.com'', ''b.com'', ''ab.com'']
             = [''a.com'', ''ab.com'', ''b.com'']"
    "uniqueSorted [''ab.com'', ''b.com'', ''a.com''] = [''a.com'', ''ab.com'', ''b.com'']"
    by code_simp+
  have d: "obtainAllDomains stubOS stubLib (TextDeny stubConfig) (JSONDeny stubConfig) []
      = (Inr ([''Example.COM'' @ [CHR 0x0D], ''*.spam.io'', ''#comment'', [], ''trusted.org'',
           ''mail.good.net''], None), [])"
    by code_simp
  have a: "obtainAllDomains stubOS stubLib (TextAllow stubConfig) (JSONAllow stubConfig) []
      = (Inr ([''Trusted.org''], None), [])"
    by code_simp
  have f: "finalLists stubLib
             [''Example.COM'' @ [CHR 0x0D], ''*.spam.io'', ''#comment'', [], ''trusted.org'',
              ''mail.good.net'']
             [''Trusted.org''] (SecureLocal stubConfig)
      = ([''example.com'', ''spam.io''], [''good.net'', ''trusted.org''])"
    by code_simp
  have w: "(''lists/deny.txt'', ''example.com'' @ [CHR 0x0A] @ ''spam.io'')
        \<in> set (snd (writeOutputs stubOS stubLib stubConfig
                        [''example.com'', ''spam.io''] [''good.net'', ''trusted.org''] []))"
    "(''lists/allow.txt'', ''good.net'' @ [CHR 0x0A] @ ''trusted.org'')
        \<in> set (snd (writeOutputs stubOS stubLib stubConfig
                        [''example.com'', ''spam.io''] [''good.net'', ''trusted.org''] []))"
    by code_simp+
  note th = uniqueSorted_strictly_ascending [of "[''b.com'', [], ''a.com'', ''b.com'', ''ab.com'']" _ stubLib _ _ _ _ _
      stubOS stubConfig "[]"]
  from th d a f have r: "snd (Run stubOS stubLib stubConfig [])
      = snd (writeOutputs stubOS stubLib stubConfig
               [''example.com'', ''spam.io''] [''good.net'', ''trusted.org''] [])"
    by blast
  show ?thesis
    using u th [THEN conjunct1] w [folded r] by (intro conjI)
qed

subsection \<open>ASCII entries\<close>

text \<open>
  On entries of ASCII bytes the normalizer never calls the Unicode routines, so that its
  result is the same with every library.
\<close>

lemma isASCII_asciiLower: "isASCII c \<Longrightarrow> isASCII (asciiLower c)"
proof -
  assume a: "isASCII c"
  show ?thesis
  proof (cases "CHR ''A'' \<le> c \<and> c \<le> CHR ''Z''")
    case True
    then have "of_char c \<le> (of_char (CHR ''Z'') :: nat)"
      by (simp only: less_eq_char_def)
    then have "of_char c \<le> (90 :: nat)"
      by simp
    then have "(of_char c + 32) mod 256 < (128 :: nat)"
      by simp
    then have "of_char (char_of (of_char c + (32 :: nat))) < (of_char (CHR 0x80) :: nat)"
      by simp
    then have "isASCII (char_of (of_char c + (32 :: nat)))"
      by (simp only: isASCII_def less_char_def)
    moreover have "asciiLower c = char_of (of_char c + (32 :: nat))"
      using True by (simp add: asciiLower_def)
    ultimately show ?thesis
      by simp
  next
    case False
    then have "asciiLower c = c"
      by (simp only: asciiLower_def if_False)
    with a show ?thesis by simp
  qed
qed

lemma ToLower_ascii: "list_all isASCII s \<Longrightarrow> ToLower L s = map asciiLower s"
  by (simp add: ToLower_def)

lemma ToLower_ascii_ascii: "list_all isASCII s \<Longrightarrow> list_all isASCII (ToLower L s)"
  by (simp add: ToLower_def list_all_iff isASCII_asciiLower)

lemma trim_back_ascii:
  assumes "\<forall>x \<in> set t. isASCII x"
  shows "(case dropWhile asciiSpace t of
            [] \<Rightarrow> []
          | d # ds \<Rightarrow> if \<not> isASCII d then F (rev (d # ds)) else rev (d # ds))
         = (case dropWhile asciiSpace t of [] \<Rightarrow> [] | d # ds \<Rightarrow> rev (d # ds))"
proof (cases "dropWhile asciiSpace t")
  case Nil
  show ?thesis unfolding Nil by simp
next
  case (Cons d ds)
  then have "d \<in> set (dropWhile asciiSpace t)" by simp
  then have "d \<in> set t" by (rule set_dropWhileD)
  with assms have "isASCII d" by simp
  then show ?thesis unfolding Cons by simp
qed

lemma TrimSpace_ascii_path:
  assumes "list_all isASCII s"
  shows "TrimSpace L s =
     (case dropWhile asciiSpace s of
        [] \<Rightarrow> []
      | c # cs \<Rightarrow> (case dropWhile asciiSpace (rev (c # cs)) of
                     [] \<Rightarrow> []
                   | d # ds \<Rightarrow> rev (d # ds)))"
proof (cases "dropWhile asciiSpace s")
  case Nil
  show ?thesis unfolding TrimSpace_def Nil by simp
next
  case (Cons c cs)
  have sub: "x \<in> set s" if "x \<in> set (c # cs)" for x
    using that set_dropWhileD [of x asciiSpace s] Cons by simp
  with assms have all: "\<forall>x \<in> set (rev (c # cs)). isASCII x"
    by (auto simp: list_all_iff)
  then have "isASCII c" by simp
  then show ?thesis
    unfolding TrimSpace_def Cons list.case
    by (simp only: not_True_eq_False if_False trim_back_ascii [OF all])
qed

lemma TrimSpace_ascii: "list_all isASCII s \<Longrightarrow> TrimSpace L s = TrimSpace L' s"
  by (simp add: TrimSpace_ascii_path)

lemma normalizeAndFilter_map_filter:
  "normalizeAndFilter L ins =
     filter (\<lambda>s. \<not> (s = [] \<or> HasPrefix s ''#'')) (map (\<lambda>s. TrimSpace L (ToLower L s)) ins)"
proof -
  have "foldl (\<lambda>out s. let s = TrimSpace L (ToLower L s)
                         in if s = [] \<or> HasPrefix s ''#'' then out else out @ [s]) acc ins
        = acc @ filter (\<lambda>s. \<not> (s = [] \<or> HasPrefix s ''#''))
                  (map (\<lambda>s. TrimSpace L (ToLower L s)) ins)" for acc
    by (induction ins arbitrary: acc) (simp_all add: Let_def)
  then show ?thesis
    by (simp add: normalizeAndFilter_def)
qed

lemma normalizeAndFilter_ascii:
  assumes "\<forall>s \<in> set ins. list_all isASCII s"
  shows "normalizeAndFilter L ins = normalizeAndFilter L' ins"
proof -
  have "TrimSpace L (ToLower L s) = TrimSpace L' (ToLower L' s)" if "s \<in> set ins" for s
  proof -
    from that assms have a: "list_all isASCII s" by simp
    then have "ToLower L s = ToLower L' s"
      by (simp add: ToLower_ascii)
    moreover from a have "list_all isASCII (ToLower L' s)"
      by (rule ToLower_ascii_ascii)
    ultimately show ?thesis
      using TrimSpace_ascii [of "ToLower L' s" L L'] by simp
  qed
  then have m: "map (\<lambda>s. TrimSpace L (ToLower L s)) ins
      = map (\<lambda>s. TrimSpace L' (ToLower L' s)) ins"
    by simp
  show ?thesis
    unfolding normalizeAndFilter_map_filter m by (rule refl)
qed

lemma finalLists_ascii:
  assumes "\<forall>s \<in> set (deny @ allow @ secureLocal). list_all isASCII s"
    and "EffectiveTLDPlusOne L = EffectiveTLDPlusOne L'"
  shows "finalLists L deny allow secureLocal = finalLists L' deny allow secureLocal"
proof -
  from assms(1) have "normalizeAndFilter L deny = normalizeAndFilter L' deny"
    "normalizeAndFilter L allow = normalizeAndFilter L' allow"
    "normalizeAndFilter L secureLocal = normalizeAndFilter L' secureLocal"
    by (simp_all add: normalizeAndFilter_ascii)
  with assms(2) show ?thesis
    by (simp add: finalLists_def)
qed

lemma removeSecure_no_secure: "removeSecureDomainsByETLD1 psl deny [] = deny"
  by (simp add: removeSecure_filter)

lemma finalLists_ascii_no_secure:
  assumes "\<forall>s \<in> set (deny @ allow). list_all isASCII s"
  shows "finalLists L deny allow [] = finalLists L' deny allow []"
proof -
  from assms have "normalizeAndFilter L deny = normalizeAndFilter L' deny"
    "normalizeAndFilter L allow = normalizeAndFilter L' allow"
    by (simp_all add: normalizeAndFilter_ascii)
  moreover have "normalizeAndFilter L [] = []" "normalizeAndFilter L' [] = []"
    by (simp_all add: normalizeAndFilter_def)
  ultimately show ?thesis
    by (simp add: finalLists_def cleanDomains_def removeSecure_no_secure)
qed

subsection \<open>Entries that keep a leading prefix\<close>

text \<open>
  Two parts of the invariant of a domain set hold of both final lists: no entry twice, no
  empty entry.
\<close>

lemma final_lists_distinct_nonempty:
  assumes "finalLists L deny allow secureLocal = (fd, fa)"
  shows "distinct fd \<and> distinct fa \<and> [] \<notin> set fd \<and> [] \<notin> set fa"
proof -
  have fd: "fd = fst (finalLists L deny allow secureLocal)"
    and fa: "fa = snd (finalLists L deny allow secureLocal)"
    using assms by simp_all
  have "sorted_wrt (<) fd" "sorted_wrt (<) fa"
    using assms by (auto simp: finalLists_eq intro: strict_difference strict_uniqueSorted)
  then have "distinct fd" "distinct fa"
    by (simp_all add: strict_sorted_iff)
  moreover have "[] \<notin> set fd"
    unfolding fd final_deny_set by simp
  moreover have "[] \<notin> set fa"
    unfolding fa final_allow_set by simp
  ultimately show ?thesis by simp
qed

text \<open>
  C4 fails on the code. With every library, the source lines \<^verbatim>\<open>..Example.com\<close> and
  \<^verbatim>\<open>*.*.spam.io\<close> lose one prefix each and are published in the deny list as
  \<^verbatim>\<open>.example.com\<close> and \<^verbatim>\<open>*.spam.io\<close>, which begin with \<^verbatim>\<open>.\<close> and with \<^verbatim>\<open>*.\<close>.
\<close>

theorem final_deny_keeps_leading_prefix:
  "finalLists L [''..Example.com'', ''*.*.spam.io''] [] []
     = ([''*.spam.io'', ''.example.com''], [])
   \<and> HasPrefix ''*.spam.io'' ''*.'' \<and> HasPrefix ''.example.com'' ''.''"
proof -
  have ev: "finalLists stubLib [''..Example.com'', ''*.*.spam.io''] [] []
     = ([''*.spam.io'', ''.example.com''], [])"
    "HasPrefix ''*.spam.io'' ''*.''" "HasPrefix ''.example.com'' ''.''"
    by code_simp+
  have "\<forall>s \<in> set ([''..Example.com'', ''*.*.spam.io''] @ []). list_all isASCII s"
    by code_simp
  then have "finalLists L [''..Example.com'', ''*.*.spam.io''] [] []
      = finalLists stubLib [''..Example.com'', ''*.*.spam.io''] [] []"
    by (rule finalLists_ascii_no_secure)
  with ev show ?thesis by simp
qed

end
